theory Spec2Isabelle
  imports
    Main
    "HOL-Library.Multiset"
    "HOL-Library.Char_ord"
    "HOL-Library.List_Lexorder"
    "HOL-Library.Product_Lexorder"
begin

section \<open>Data model (package model)\<close>

text \<open>
  Timestamps are abstract instants; only their order matters. The instant that GORM reads
  from the clock when it writes a row is the argument \<open>now\<close> of the writing operations.
  Identifiers are Go \<open>uint\<close> values handed out by the database sequence; no arithmetic
  is done on them by the service, so they are natural numbers here.
\<close>

type_synonym time = nat

text \<open>\<open>type Priority string\<close> with its four constants and \<open>IsValid\<close>.\<close>

type_synonym Priority = string

definition PriorityLow :: Priority where
  "PriorityLow = ''low''"

definition PriorityMedium :: Priority where
  "PriorityMedium = ''medium''"

definition PriorityHigh :: Priority where
  "PriorityHigh = ''high''"

definition PriorityUrgent :: Priority where
  "PriorityUrgent = ''urgent''"

definition IsValid :: "Priority \<Rightarrow> bool" where
  "IsValid p =
     (p = PriorityLow \<or> p = PriorityMedium \<or> p = PriorityHigh \<or> p = PriorityUrgent)"

text \<open>
  The struct \<open>Todo\<close>. \<open>DueDate\<close> is a nullable pointer and \<open>DeletedAt\<close> is
  \<open>gorm.DeletedAt\<close> (a nullable time): both are options.
\<close>

record Todo =
  ID :: nat
  Title :: string
  Description :: string
  Completed :: bool
  Priority :: Priority
  DueDate :: "time option"
  CreatedAt :: time
  UpdatedAt :: time
  DeletedAt :: "time option"

text \<open>
  \<open>TodoCreateRequest\<close> and \<open>TodoUpdateRequest\<close>. The field names carry a prefix because
  a record field is a constant of the theory; every pointer field of the update request
  is an option (\<open>None\<close> for \<open>nil\<close>).
\<close>

record TodoCreateRequest =
  req_Title :: string
  req_Description :: string
  req_Priority :: Priority
  req_DueDate :: "time option"

record TodoUpdateRequest =
  upd_Title :: "string option"
  upd_Description :: "string option"
  upd_Completed :: "bool option"
  upd_Priority :: "Priority option"
  upd_DueDate :: "time option"

section \<open>The relational store behind \<open>gorm.DB\<close>\<close>

text \<open>
  The service talks to one table through five statements. The table is the list of its
  rows in insertion order, \<open>next_id\<close> is the sequence of the primary key, and
  \<open>faults\<close> is what the driver will answer to the statements still to come: each
  statement takes the head of the list, \<open>Some msg\<close> makes it fail with that message and
  touch no row, \<open>None\<close> or an exhausted list lets it run.
\<close>

datatype db_error = ErrRecordNotFound | DriverError string

record store =
  rows :: "Todo list"
  next_id :: nat
  faults :: "string option list"

definition driver :: "store \<Rightarrow> string option \<times> store" where
  "driver s = (case faults s of [] \<Rightarrow> (None, s) | f # fs \<Rightarrow> (f, s\<lparr>faults := fs\<rparr>))"

text \<open>Every query on a model with a \<open>DeletedAt\<close> column carries \<open>deleted_at IS NULL\<close>.\<close>

definition live :: "Todo \<Rightarrow> bool" where
  "live t = (DeletedAt t = None)"

definition is_live :: "store \<Rightarrow> nat \<Rightarrow> bool" where
  "is_live s i = (\<exists>t \<in> set (rows s). ID t = i \<and> live t)"

text \<open>\<open>ORDER BY key DESC\<close>: the rows by descending key.\<close>

definition order_desc :: "('a \<Rightarrow> 'k::linorder) \<Rightarrow> 'a list \<Rightarrow> 'a list" where
  "order_desc key xs = rev (sort_key key xs)"

text \<open>\<open>db.First(&todo, id)\<close>: the live row with that primary key.\<close>

definition db_First :: "nat \<Rightarrow> store \<Rightarrow> (db_error + Todo) \<times> store" where
  "db_First i s =
     (case driver s of
        (Some msg, s') \<Rightarrow> (Inl (DriverError msg), s')
      | (None, s') \<Rightarrow>
          (case find (\<lambda>t. ID t = i \<and> live t) (rows s') of
             None \<Rightarrow> (Inl ErrRecordNotFound, s')
           | Some t \<Rightarrow> (Inr t, s')))"

text \<open>
  \<open>db.Where(cond).Order(ord).Find(&todos)\<close>: the live rows that satisfy the condition,
  in the requested order.
\<close>

definition db_Find ::
  "(Todo \<Rightarrow> bool) \<Rightarrow> (Todo list \<Rightarrow> Todo list) \<Rightarrow> store \<Rightarrow> (db_error + Todo list) \<times> store" where
  "db_Find cond ord s =
     (case driver s of
        (Some msg, s') \<Rightarrow> (Inl (DriverError msg), s')
      | (None, s') \<Rightarrow> (Inr (ord (filter (\<lambda>t. live t \<and> cond t) (rows s'))), s'))"

text \<open>
  \<open>db.Create(todo)\<close>: the insert assigns the next identifier and stamps both timestamps
  (the service leaves all three at their zero value); the struct is filled in place, so
  the stored row is also what the caller gets back.
\<close>

definition db_Create :: "time \<Rightarrow> Todo \<Rightarrow> store \<Rightarrow> (db_error + Todo) \<times> store" where
  "db_Create now todo s =
     (case driver s of
        (Some msg, s') \<Rightarrow> (Inl (DriverError msg), s')
      | (None, s') \<Rightarrow>
          (let t = todo\<lparr>ID := next_id s', CreatedAt := now, UpdatedAt := now\<rparr>
           in (Inr t, s'\<lparr>rows := rows s' @ [t], next_id := Suc (next_id s')\<rparr>)))"

text \<open>
  \<open>db.Save(todo)\<close> on a struct with a primary key: every column of the live row with
  that key is overwritten and \<open>updated_at\<close> is refreshed; the refreshed struct is what
  the caller gets back. The service saves only what it has just fetched, so a live row
  with that key is there. (With no such row GORM would go on to an insert; a call that
  runs alone never gets there, and the table is left as it is in that case.)
\<close>

definition db_Save :: "time \<Rightarrow> Todo \<Rightarrow> store \<Rightarrow> (db_error + Todo) \<times> store" where
  "db_Save now todo s =
     (case driver s of
        (Some msg, s') \<Rightarrow> (Inl (DriverError msg), s')
      | (None, s') \<Rightarrow>
          (let t = todo\<lparr>UpdatedAt := now\<rparr>
           in (Inr t,
               s'\<lparr>rows := map (\<lambda>r. if ID r = ID todo \<and> live r then t else r) (rows s')\<rparr>)))"

text \<open>
  \<open>db.Delete(&model.Todo{}, id)\<close>: a soft delete. The live rows with that key get
  their \<open>deleted_at\<close> set; no row leaves the table. The result is \<open>RowsAffected\<close>.
\<close>

definition db_Delete :: "time \<Rightarrow> nat \<Rightarrow> store \<Rightarrow> (db_error + nat) \<times> store" where
  "db_Delete now i s =
     (case driver s of
        (Some msg, s') \<Rightarrow> (Inl (DriverError msg), s')
      | (None, s') \<Rightarrow>
          (Inr (length (filter (\<lambda>r. ID r = i \<and> live r) (rows s'))),
           s'\<lparr>rows := map (\<lambda>r. if ID r = i \<and> live r then r\<lparr>DeletedAt := Some now\<rparr> else r)
                         (rows s')\<rparr>))"

section \<open>The service (package service)\<close>

text \<open>
  The service returns errors built with \<open>fmt.Errorf\<close>; what tells them apart is the
  message. One constructor per message: the invalid priority with the offending value,
  the missing identifier, the identifier that was already deleted, and the wrapped store
  failure together with the operation whose message wraps it.
\<close>

datatype operation =
  OpGet | OpCreate | OpUpdate | OpDelete | OpByPriority Priority | OpCompleted | OpPending

datatype error =
    ValidationError Priority
  | NotFoundError nat
  | AlreadyDeletedError nat
  | StoreError operation db_error

definition GetAllTodos :: "store \<Rightarrow> (error + Todo list) \<times> store" where
  "GetAllTodos s =
     (case db_Find (\<lambda>t. True) (order_desc CreatedAt) s of
        (Inl e, s') \<Rightarrow> (Inl (StoreError OpGet e), s')
      | (Inr todos, s') \<Rightarrow> (Inr todos, s'))"

definition GetTodoByID :: "nat \<Rightarrow> store \<Rightarrow> (error + Todo) \<times> store" where
  "GetTodoByID i s =
     (case db_First i s of
        (Inl e, s') \<Rightarrow>
          (if e = ErrRecordNotFound then (Inl (NotFoundError i), s')
           else (Inl (StoreError OpGet e), s'))
      | (Inr todo, s') \<Rightarrow> (Inr todo, s'))"

text \<open>
  \<open>CreateTodo\<close> receives a pointer to the request and writes the default priority into
  it, so the request as the caller sees it afterwards is part of the result.
\<close>

definition CreateTodo ::
  "time \<Rightarrow> TodoCreateRequest \<Rightarrow> store \<Rightarrow> (error + Todo) \<times> TodoCreateRequest \<times> store" where
  "CreateTodo now req s =
     (if req_Priority req \<noteq> [] \<and> \<not> IsValid (req_Priority req)
      then (Inl (ValidationError (req_Priority req)), req, s)
      else
        (let req' = (if req_Priority req = [] then req\<lparr>req_Priority := PriorityMedium\<rparr>
                     else req);
             todo = \<lparr>ID = 0, Title = req_Title req', Description = req_Description req',
                     Completed = False, Priority = req_Priority req',
                     DueDate = req_DueDate req', CreatedAt = 0, UpdatedAt = 0,
                     DeletedAt = None\<rparr>
         in (case db_Create now todo s of
               (Inl e, s') \<Rightarrow> (Inl (StoreError OpCreate e), req', s')
             | (Inr t, s') \<Rightarrow> (Inr t, req', s'))))"

text \<open>The tail of \<open>UpdateTodo\<close>: the due date, then the save.\<close>

definition save_update ::
  "time \<Rightarrow> TodoUpdateRequest \<Rightarrow> Todo \<Rightarrow> store \<Rightarrow> (error + Todo) \<times> store" where
  "save_update now req todo s =
     (let todo' = (case upd_DueDate req of None \<Rightarrow> todo | Some d \<Rightarrow> todo\<lparr>DueDate := Some d\<rparr>)
      in (case db_Save now todo' s of
            (Inl e, s') \<Rightarrow> (Inl (StoreError OpUpdate e), s')
          | (Inr t, s') \<Rightarrow> (Inr t, s')))"

definition UpdateTodo ::
  "time \<Rightarrow> nat \<Rightarrow> TodoUpdateRequest \<Rightarrow> store \<Rightarrow> (error + Todo) \<times> store" where
  "UpdateTodo now i req s =
     (case GetTodoByID i s of
        (Inl err, s1) \<Rightarrow> (Inl err, s1)
      | (Inr todo, s1) \<Rightarrow>
          (let todo1 = (case upd_Title req of None \<Rightarrow> todo | Some v \<Rightarrow> todo\<lparr>Title := v\<rparr>);
               todo2 = (case upd_Description req of None \<Rightarrow> todo1
                        | Some v \<Rightarrow> todo1\<lparr>Description := v\<rparr>);
               todo3 = (case upd_Completed req of None \<Rightarrow> todo2
                        | Some v \<Rightarrow> todo2\<lparr>Completed := v\<rparr>)
           in (case upd_Priority req of
                 None \<Rightarrow> save_update now req todo3 s1
               | Some p \<Rightarrow>
                   (if \<not> IsValid p then (Inl (ValidationError p), s1)
                    else save_update now req (todo3\<lparr>Priority := p\<rparr>) s1))))"

definition DeleteTodo :: "time \<Rightarrow> nat \<Rightarrow> store \<Rightarrow> error option \<times> store" where
  "DeleteTodo now i s =
     (case GetTodoByID i s of
        (Inl err, s1) \<Rightarrow> (Some err, s1)
      | (Inr todo, s1) \<Rightarrow>
          (case db_Delete now i s1 of
             (Inl e, s2) \<Rightarrow> (Some (StoreError OpDelete e), s2)
           | (Inr affected, s2) \<Rightarrow>
               (if affected = 0 then (Some (AlreadyDeletedError i), s2) else (None, s2))))"

definition GetTodosByPriority :: "Priority \<Rightarrow> store \<Rightarrow> (error + Todo list) \<times> store" where
  "GetTodosByPriority p s =
     (if \<not> IsValid p then (Inl (ValidationError p), s)
      else
        (case db_Find (\<lambda>t. Priority t = p) (order_desc CreatedAt) s of
           (Inl e, s') \<Rightarrow> (Inl (StoreError (OpByPriority p) e), s')
         | (Inr todos, s') \<Rightarrow> (Inr todos, s')))"

definition GetCompletedTodos :: "store \<Rightarrow> (error + Todo list) \<times> store" where
  "GetCompletedTodos s =
     (case db_Find (\<lambda>t. Completed t = True) (order_desc UpdatedAt) s of
        (Inl e, s') \<Rightarrow> (Inl (StoreError OpCompleted e), s')
      | (Inr todos, s') \<Rightarrow> (Inr todos, s'))"

text \<open>
  \<open>ORDER BY priority DESC, created_at DESC\<close>: the column \<open>priority\<close> is
  \<open>varchar(10)\<close>, so the first key is the stored string, compared as text.
\<close>

definition GetPendingTodos :: "store \<Rightarrow> (error + Todo list) \<times> store" where
  "GetPendingTodos s =
     (case db_Find (\<lambda>t. Completed t = False) (order_desc (\<lambda>t. (Priority t, CreatedAt t))) s of
        (Inl e, s') \<Rightarrow> (Inl (StoreError OpPending e), s')
      | (Inr todos, s') \<Rightarrow> (Inr todos, s'))"

section \<open>Derived notions used in the statements\<close>

text \<open>
  The struct of \<open>UpdateTodo\<close> after the assignments of title, description and completed
  flag, and the entity that a successful update of \<open>old\<close> saves and returns: the same
  assignments in the same order, then priority, due date and the refreshed
  \<open>UpdatedAt\<close>. That \<open>UpdateTodo\<close> computes exactly this is lemma
  \<open>UpdateTodo_quiet_ok\<close> below.
\<close>
definition fields3 :: "TodoUpdateRequest \<Rightarrow> Todo \<Rightarrow> Todo" where
  "fields3 req todo =
     (let todo1 = (case upd_Title req of None \<Rightarrow> todo | Some v \<Rightarrow> todo\<lparr>Title := v\<rparr>);
          todo2 = (case upd_Description req of None \<Rightarrow> todo1
                   | Some v \<Rightarrow> todo1\<lparr>Description := v\<rparr>)
      in (case upd_Completed req of None \<Rightarrow> todo2 | Some v \<Rightarrow> todo2\<lparr>Completed := v\<rparr>))"

definition updated :: "time \<Rightarrow> TodoUpdateRequest \<Rightarrow> Todo \<Rightarrow> Todo" where
  "updated now req old =
     (let t3 = fields3 req old;
          t4 = (case upd_Priority req of None \<Rightarrow> t3 | Some p \<Rightarrow> t3\<lparr>Priority := p\<rparr>);
          t5 = (case upd_DueDate req of None \<Rightarrow> t4 | Some d \<Rightarrow> t4\<lparr>DueDate := Some d\<rparr>)
      in t5\<lparr>UpdatedAt := now\<rparr>)"

text \<open>
  The severity rank the specification speaks of (urgent above high above medium above
  low). The code declares no such rank: \<open>Priority\<close> is a string type and the only
  order the store applies is the one of the stored text.
\<close>
definition spec_rank :: "Priority \<Rightarrow> nat" where
  "spec_rank p =
     (if p = PriorityUrgent then 4 else if p = PriorityHigh then 3
      else if p = PriorityMedium then 2 else if p = PriorityLow then 1 else 0)"

text \<open>
  Sample data: a table with two pending entities, a completed one and a soft-deleted one,
  and a few requests.
\<close>
definition todo_milk :: Todo where
  "todo_milk = \<lparr>ID = 1, Title = ''Buy milk'', Description = [], Completed = False,
     Priority = ''high'', DueDate = None, CreatedAt = 10, UpdatedAt = 10, DeletedAt = None\<rparr>"

definition todo_rent :: Todo where
  "todo_rent = \<lparr>ID = 2, Title = ''Pay rent'', Description = [], Completed = False,
     Priority = ''medium'', DueDate = Some 90, CreatedAt = 20, UpdatedAt = 20, DeletedAt = None\<rparr>"

definition todo_tax :: Todo where
  "todo_tax = \<lparr>ID = 3, Title = ''File taxes'', Description = [], Completed = True,
     Priority = ''urgent'', DueDate = None, CreatedAt = 30, UpdatedAt = 35, DeletedAt = None\<rparr>"

definition todo_gym :: Todo where
  "todo_gym = \<lparr>ID = 4, Title = ''Cancel gym'', Description = [], Completed = False,
     Priority = ''low'', DueDate = None, CreatedAt = 40, UpdatedAt = 40, DeletedAt = Some 45\<rparr>"

definition example_store :: store where
  "example_store = \<lparr>rows = [todo_milk, todo_rent, todo_tax, todo_gym], next_id = 5, faults = []\<rparr>"

definition empty_update :: TodoUpdateRequest where
  "empty_update = \<lparr>upd_Title = None, upd_Description = None, upd_Completed = None,
     upd_Priority = None, upd_DueDate = None\<rparr>"

definition create_high :: TodoCreateRequest where
  "create_high = \<lparr>req_Title = ''Walk dog'', req_Description = [], req_Priority = ''high'',
     req_DueDate = None\<rparr>"

definition create_invalid :: TodoCreateRequest where
  "create_invalid = \<lparr>req_Title = ''Walk dog'', req_Description = [], req_Priority = ''invalid'',
     req_DueDate = None\<rparr>"

definition create_default :: TodoCreateRequest where
  "create_default = \<lparr>req_Title = ''Walk dog'', req_Description = [], req_Priority = [],
     req_DueDate = None\<rparr>"

definition update_low :: TodoUpdateRequest where
  "update_low = \<lparr>upd_Title = None, upd_Description = None, upd_Completed = Some True,
     upd_Priority = Some ''low'', upd_DueDate = None\<rparr>"

definition update_invalid :: TodoUpdateRequest where
  "update_invalid = \<lparr>upd_Title = None, upd_Description = None, upd_Completed = Some True,
     upd_Priority = Some ''invalid'', upd_DueDate = None\<rparr>"

section \<open>Facts about the statements\<close>

subsection \<open>Fetching by identifier\<close>
lemma driver_quiet: "faults s = [] \<Longrightarrow> driver s = (None, s)"
  by (simp add: driver_def)

lemma find_live_Some:
  "is_live s i \<Longrightarrow> \<exists>t. find (\<lambda>t. ID t = i \<and> live t) (rows s) = Some t"
  by (cases "find (\<lambda>t. ID t = i \<and> live t) (rows s)") (auto simp: is_live_def find_None_iff)

lemma find_live_None:
  "\<not> is_live s i \<Longrightarrow> find (\<lambda>t. ID t = i \<and> live t) (rows s) = None"
  by (auto simp: is_live_def find_None_iff)

lemma find_live_props:
  "find (\<lambda>t. ID t = i \<and> live t) xs = Some t \<Longrightarrow> t \<in> set xs \<and> ID t = i \<and> live t"
  by (auto simp: find_Some_iff)

lemma GetTodoByID_quiet:
  "faults s = [] \<Longrightarrow>
   GetTodoByID i s =
     (case find (\<lambda>t. ID t = i \<and> live t) (rows s) of
        None \<Rightarrow> (Inl (NotFoundError i), s)
      | Some t \<Rightarrow> (Inr t, s))"
  by (simp add: GetTodoByID_def db_First_def driver_quiet split: option.split)

lemma GetTodoByID_rows: "rows (snd (GetTodoByID i s)) = rows s"
  by (simp add: GetTodoByID_def db_First_def driver_def split: list.split option.split)

lemma GetTodoByID_rows': "GetTodoByID i s = (r, s') \<Longrightarrow> rows s' = rows s"
  using GetTodoByID_rows [of i s] by simp

lemma GetTodoByID_Inr:
  "GetTodoByID i s = (Inr t, s') \<Longrightarrow> t \<in> set (rows s) \<and> ID t = i \<and> live t"
  by (auto simp: GetTodoByID_def db_First_def driver_def find_Some_iff
           split: list.splits option.splits if_splits)

lemma GetTodoByID_Inl:
  "GetTodoByID i s = (Inl e, s') \<Longrightarrow> e = NotFoundError i \<or> (\<exists>d. e = StoreError OpGet d)"
  unfolding GetTodoByID_def
  by (cases "db_First i s") (auto split: sum.splits if_splits)

lemma GetTodoByID_find:
  "faults s = [] \<Longrightarrow> GetTodoByID i s = (Inr old, s') \<Longrightarrow>
   find (\<lambda>t. ID t = i \<and> live t) (rows s) = Some old"
  by (simp add: GetTodoByID_quiet split: option.splits)

subsection \<open>Creating\<close>
lemma db_Create_quiet:
  "faults s = [] \<Longrightarrow>
   db_Create now todo s =
     (Inr (todo\<lparr>ID := next_id s, CreatedAt := now, UpdatedAt := now\<rparr>),
      s\<lparr>rows := rows s @ [todo\<lparr>ID := next_id s, CreatedAt := now, UpdatedAt := now\<rparr>],
        next_id := Suc (next_id s)\<rparr>)"
  by (simp add: db_Create_def driver_quiet Let_def)

lemma db_Create_Inr:
  "db_Create now todo s = (Inr t, s') \<Longrightarrow>
   t \<in> set (rows s') \<and> Completed t = Completed todo \<and> Priority t = Priority todo"
  by (auto simp: db_Create_def driver_def Let_def split: list.splits option.splits)

lemma CreateTodo_Inr:
  "CreateTodo now req s = (Inr t, r', s') \<Longrightarrow>
   Completed t = False \<and> t \<in> set (rows s') \<and>
   Priority t = (if req_Priority req = [] then PriorityMedium else req_Priority req)"
  by (auto simp: CreateTodo_def Let_def split: if_splits prod.splits sum.splits
           dest!: db_Create_Inr)

lemma IsValid_nonempty: "IsValid p \<Longrightarrow> p \<noteq> []"
  by (auto simp: IsValid_def PriorityLow_def PriorityMedium_def PriorityHigh_def PriorityUrgent_def)

lemma CreateTodo_not_validation:
  "IsValid (req_Priority req) \<Longrightarrow> fst (CreateTodo now req s) \<noteq> Inl (ValidationError e)"
  unfolding CreateTodo_def Let_def
  by (cases "db_Create now \<lparr>ID = 0, Title = req_Title req, Description = req_Description req,
        Completed = False, Priority = req_Priority req, DueDate = req_DueDate req,
        CreatedAt = 0, UpdatedAt = 0, DeletedAt = None\<rparr> s")
     (auto split: sum.splits simp: IsValid_def PriorityLow_def PriorityMedium_def
        PriorityHigh_def PriorityUrgent_def)

lemma CreateTodo_quiet_valid:
  "faults s = [] \<Longrightarrow> IsValid (req_Priority req) \<Longrightarrow>
   \<exists>t s'. CreateTodo now req s = (Inr t, req, s') \<and> Priority t = req_Priority req"
  by (simp add: CreateTodo_def Let_def db_Create_quiet IsValid_nonempty)

subsection \<open>Updating\<close>

text \<open>
  The case combinator and \<open>if\<close> are simplified with weak congruence rules, so the
  proofs below split on the optional fields by hand and unfold under binders explicitly.
\<close>
lemma find_map_replace:
  "P t \<Longrightarrow> find P xs = Some x \<Longrightarrow> find P (map (\<lambda>r. if P r then t else r) xs) = Some t"
  by (induction xs) (auto split: if_splits)

lemma db_Save_quiet:
  "faults s = [] \<Longrightarrow>
   db_Save now todo s =
     (Inr (todo\<lparr>UpdatedAt := now\<rparr>),
      s\<lparr>rows := map (\<lambda>r. if ID r = ID todo \<and> live r then todo\<lparr>UpdatedAt := now\<rparr> else r)
                    (rows s)\<rparr>)"
  by (simp add: db_Save_def driver_quiet Let_def)

lemma UpdateTodo_fields3:
  "GetTodoByID i s = (Inr old, s1) \<Longrightarrow>
   UpdateTodo now i req s =
     (case upd_Priority req of
        None \<Rightarrow> save_update now req (fields3 req old) s1
      | Some p \<Rightarrow>
          (if \<not> IsValid p then (Inl (ValidationError p), s1)
           else save_update now req ((fields3 req old)\<lparr>Priority := p\<rparr>) s1))"
  by (cases "upd_Priority req") (simp_all add: UpdateTodo_def fields3_def Let_def)

lemma updated_Title:
  "Title (updated now req old) = (case upd_Title req of None \<Rightarrow> Title old | Some v \<Rightarrow> v)"
  by (cases "upd_Title req"; cases "upd_Description req"; cases "upd_Completed req";
      cases "upd_Priority req"; cases "upd_DueDate req")
     (simp_all add: updated_def fields3_def)

lemma updated_Description:
  "Description (updated now req old) =
     (case upd_Description req of None \<Rightarrow> Description old | Some v \<Rightarrow> v)"
  by (cases "upd_Title req"; cases "upd_Description req"; cases "upd_Completed req";
      cases "upd_Priority req"; cases "upd_DueDate req")
     (simp_all add: updated_def fields3_def)

lemma updated_Completed:
  "Completed (updated now req old) =
     (case upd_Completed req of None \<Rightarrow> Completed old | Some v \<Rightarrow> v)"
  by (cases "upd_Title req"; cases "upd_Description req"; cases "upd_Completed req";
      cases "upd_Priority req"; cases "upd_DueDate req")
     (simp_all add: updated_def fields3_def)

lemma updated_Priority:
  "Priority (updated now req old) =
     (case upd_Priority req of None \<Rightarrow> Priority old | Some v \<Rightarrow> v)"
  by (cases "upd_Title req"; cases "upd_Description req"; cases "upd_Completed req";
      cases "upd_Priority req"; cases "upd_DueDate req")
     (simp_all add: updated_def fields3_def)

lemma updated_DueDate:
  "DueDate (updated now req old) =
     (case upd_DueDate req of None \<Rightarrow> DueDate old | Some d \<Rightarrow> Some d)"
  by (cases "upd_Title req"; cases "upd_Description req"; cases "upd_Completed req";
      cases "upd_Priority req"; cases "upd_DueDate req")
     (simp_all add: updated_def fields3_def)

lemma updated_frame:
  "ID (updated now req old) = ID old \<and> CreatedAt (updated now req old) = CreatedAt old
   \<and> DeletedAt (updated now req old) = DeletedAt old \<and> UpdatedAt (updated now req old) = now"
  by (cases "upd_Title req"; cases "upd_Description req"; cases "upd_Completed req";
      cases "upd_Priority req"; cases "upd_DueDate req")
     (simp_all add: updated_def fields3_def)

lemma updated_empty: "updated now empty_update old = old\<lparr>UpdatedAt := now\<rparr>"
  by (simp add: updated_def fields3_def empty_update_def)

lemma ID_fields3: "ID (fields3 req old) = ID old"
  by (cases "upd_Title req"; cases "upd_Description req"; cases "upd_Completed req")
     (simp_all add: fields3_def)

lemma ID_due:
  "ID (case upd_DueDate req of None \<Rightarrow> todo | Some d \<Rightarrow> todo\<lparr>DueDate := Some d\<rparr>) = ID todo"
  by (cases "upd_DueDate req") simp_all

lemma save_update_quiet:
  assumes q: "faults s = []" and i: "ID todo = i"
  shows "save_update now req todo s =
     (Inr ((case upd_DueDate req of None \<Rightarrow> todo | Some d \<Rightarrow> todo\<lparr>DueDate := Some d\<rparr>)
            \<lparr>UpdatedAt := now\<rparr>),
      s\<lparr>rows := map (\<lambda>r. if ID r = i \<and> live r
                          then (case upd_DueDate req of None \<Rightarrow> todo
                                | Some d \<Rightarrow> todo\<lparr>DueDate := Some d\<rparr>)\<lparr>UpdatedAt := now\<rparr>
                          else r) (rows s)\<rparr>)"
  by (simp add: save_update_def db_Save_quiet [OF q] Let_def ID_due i)

lemma save_update_Inl:
  "save_update now req todo s = (Inl e, s') \<Longrightarrow> (\<exists>d. e = StoreError OpUpdate d) \<and> rows s' = rows s"
  unfolding save_update_def Let_def
  by (cases "db_Save now (case upd_DueDate req of None \<Rightarrow> todo
                          | Some d \<Rightarrow> todo\<lparr>DueDate := Some d\<rparr>) s")
     (auto split: sum.splits simp: db_Save_def driver_def Let_def split: list.splits option.splits)

lemma UpdateTodo_quiet_ok:
  assumes q: "faults s = []"
    and f: "find (\<lambda>t. ID t = i \<and> live t) (rows s) = Some old"
    and v: "\<forall>p. upd_Priority req = Some p \<longrightarrow> IsValid p"
  shows "UpdateTodo now i req s =
     (Inr (updated now req old),
      s\<lparr>rows := map (\<lambda>r. if ID r = i \<and> live r then updated now req old else r) (rows s)\<rparr>)"
proof -
  have g: "GetTodoByID i s = (Inr old, s)"
    using q f by (simp add: GetTodoByID_quiet)
  have i: "ID old = i" using find_live_props [OF f] by simp
  show ?thesis
  proof (cases "upd_Priority req")
    case None
    have i3: "ID (fields3 req old) = i" using i by (simp add: ID_fields3)
    have u: "updated now req old =
        (case upd_DueDate req of None \<Rightarrow> fields3 req old
         | Some d \<Rightarrow> (fields3 req old)\<lparr>DueDate := Some d\<rparr>)\<lparr>UpdatedAt := now\<rparr>"
      using None by (simp add: updated_def Let_def)
    show ?thesis
      unfolding u using None by (simp add: UpdateTodo_fields3 [OF g] save_update_quiet [OF q i3])
  next
    case (Some p)
    have i3: "ID ((fields3 req old)\<lparr>Priority := p\<rparr>) = i" using i by (simp add: ID_fields3)
    have "IsValid p" using v Some by simp
    have u: "updated now req old =
        (case upd_DueDate req of None \<Rightarrow> (fields3 req old)\<lparr>Priority := p\<rparr>
         | Some d \<Rightarrow> (fields3 req old)\<lparr>Priority := p, DueDate := Some d\<rparr>)\<lparr>UpdatedAt := now\<rparr>"
      using Some by (simp add: updated_def Let_def)
    show ?thesis
      unfolding u using Some \<open>IsValid p\<close>
      by (simp add: UpdateTodo_fields3 [OF g] save_update_quiet [OF q i3])
  qed
qed

lemma UpdateTodo_quiet_invalid:
  assumes q: "faults s = []"
    and f: "find (\<lambda>t. ID t = i \<and> live t) (rows s) = Some old"
    and v: "upd_Priority req = Some p" "\<not> IsValid p"
  shows "UpdateTodo now i req s = (Inl (ValidationError p), s)"
proof -
  have g: "GetTodoByID i s = (Inr old, s)"
    using q f by (simp add: GetTodoByID_quiet)
  show ?thesis using v by (simp add: UpdateTodo_fields3 [OF g])
qed

lemma UpdateTodo_not_validation:
  assumes v: "IsValid p" and u: "upd_Priority req = Some p"
  shows "fst (UpdateTodo now i req s) \<noteq> Inl (ValidationError e)"
proof (cases "GetTodoByID i s")
  case (Pair r s1)
  show ?thesis
  proof (cases r)
    case (Inl err)
    with Pair GetTodoByID_Inl [of i s err s1] show ?thesis
      by (auto simp: UpdateTodo_def)
  next
    case (Inr old)
    with Pair have g: "GetTodoByID i s = (Inr old, s1)" by simp
    show ?thesis
    proof (cases "save_update now req ((fields3 req old)\<lparr>Priority := p\<rparr>) s1")
      case (Pair r2 s2)
      then show ?thesis
        using v u save_update_Inl [of now req "(fields3 req old)\<lparr>Priority := p\<rparr>" s1 _ s2]
        by (cases r2) (auto simp: UpdateTodo_fields3 [OF g])
    qed
  qed
qed

lemma UpdateTodo_invalid_rows:
  assumes v: "\<not> IsValid p" and u: "upd_Priority req = Some p"
  shows "rows (snd (UpdateTodo now i req s)) = rows s"
proof (cases "GetTodoByID i s")
  case (Pair r s1)
  have r: "rows s1 = rows s" using GetTodoByID_rows' [OF Pair] .
  show ?thesis
  proof (cases r)
    case (Inl err)
    with Pair r show ?thesis by (simp add: UpdateTodo_def)
  next
    case (Inr old)
    with Pair have g: "GetTodoByID i s = (Inr old, s1)" by simp
    show ?thesis using v u r by (simp add: UpdateTodo_fields3 [OF g])
  qed
qed

lemma reread_updated:
  assumes q: "faults s = []"
    and f: "find (\<lambda>t. ID t = i \<and> live t) (rows s) = Some old"
  shows "GetTodoByID i
           (s\<lparr>rows := map (\<lambda>r. if ID r = i \<and> live r then updated now req old else r) (rows s)\<rparr>) =
         (Inr (updated now req old),
          s\<lparr>rows := map (\<lambda>r. if ID r = i \<and> live r then updated now req old else r) (rows s)\<rparr>)"
proof -
  have lv: "ID old = i \<and> live old" using find_live_props [OF f] by simp
  have pt: "ID (updated now req old) = i \<and> live (updated now req old)"
    using lv updated_frame [of now req old] by (simp add: live_def)
  have "find (\<lambda>t. ID t = i \<and> live t)
          (map (\<lambda>r. if ID r = i \<and> live r then updated now req old else r) (rows s)) =
        Some (updated now req old)"
    using find_map_replace [of "\<lambda>t. ID t = i \<and> live t" "updated now req old" "rows s" old] pt f
    by simp
  then show ?thesis using q by (simp add: GetTodoByID_quiet)
qed

subsection \<open>Soft deletion\<close>
lemma db_Delete_quiet:
  "faults s = [] \<Longrightarrow>
   db_Delete now i s =
     (Inr (length (filter (\<lambda>r. ID r = i \<and> live r) (rows s))),
      s\<lparr>rows := map (\<lambda>r. if ID r = i \<and> live r then r\<lparr>DeletedAt := Some now\<rparr> else r) (rows s)\<rparr>)"
  by (simp add: db_Delete_def driver_quiet)

lemma live_count_pos:
  "t \<in> set xs \<Longrightarrow> ID t = i \<and> live t \<Longrightarrow> 0 < length (filter (\<lambda>r. ID r = i \<and> live r) xs)"
  by (induction xs) auto

lemma deleted_not_live:
  "\<not> (ID (if ID r = i \<and> live r then r\<lparr>DeletedAt := Some now\<rparr> else r) = i
     \<and> live (if ID r = i \<and> live r then r\<lparr>DeletedAt := Some now\<rparr> else r))"
  by (simp add: live_def)

lemma no_live_after_delete:
  "\<forall>t \<in> set (map (\<lambda>r. if ID r = i \<and> live r then r\<lparr>DeletedAt := Some now\<rparr> else r) xs).
     \<not> (ID t = i \<and> live t)"
proof
  fix t
  assume "t \<in> set (map (\<lambda>r. if ID r = i \<and> live r then r\<lparr>DeletedAt := Some now\<rparr> else r) xs)"
  then have "t \<in> (\<lambda>r. if ID r = i \<and> live r then r\<lparr>DeletedAt := Some now\<rparr> else r) ` set xs"
    by (simp only: set_map)
  then obtain r where e: "t = (if ID r = i \<and> live r then r\<lparr>DeletedAt := Some now\<rparr> else r)"
    by blast
  show "\<not> (ID t = i \<and> live t)"
    unfolding e by (rule deleted_not_live)
qed

lemma rows_update: "rows (s\<lparr>rows := X\<rparr>) = X"
  by simp

lemma not_live_after_delete:
  "\<not> is_live (s\<lparr>rows := map (\<lambda>r. if ID r = i \<and> live r then r\<lparr>DeletedAt := Some now\<rparr> else r)
                           (rows s)\<rparr>) i"
  unfolding is_live_def rows_update using no_live_after_delete [of i now "rows s"] by blast

lemma ID_after_delete:
  "map ID (map (\<lambda>r. if ID r = i \<and> live r then r\<lparr>DeletedAt := Some now\<rparr> else r) xs) = map ID xs"
  by (induction xs) simp_all

lemma DeleteTodo_quiet_live:
  assumes q: "faults s = []" and l: "is_live s i"
  shows "DeleteTodo now i s =
     (None, s\<lparr>rows := map (\<lambda>r. if ID r = i \<and> live r then r\<lparr>DeletedAt := Some now\<rparr> else r)
                       (rows s)\<rparr>)"
proof -
  from l obtain old where f: "find (\<lambda>t. ID t = i \<and> live t) (rows s) = Some old"
    using find_live_Some by blast
  have g: "GetTodoByID i s = (Inr old, s)" using q f by (simp add: GetTodoByID_quiet)
  have "0 < length (filter (\<lambda>r. ID r = i \<and> live r) (rows s))"
    using find_live_props [OF f] live_count_pos by blast
  then show ?thesis
    by (simp add: DeleteTodo_def g db_Delete_quiet [OF q])
qed

lemma DeleteTodo_quiet_missing:
  assumes q: "faults s = []" and l: "\<not> is_live s i"
  shows "DeleteTodo now i s = (Some (NotFoundError i), s)"
  using q l by (simp add: DeleteTodo_def GetTodoByID_quiet find_live_None)

lemma DeleteTodo_never_AlreadyDeleted:
  "fst (DeleteTodo now i s) \<noteq> Some (AlreadyDeletedError j)"
proof (cases "GetTodoByID i s")
  case (Pair r s1)
  show ?thesis
  proof (cases r)
    case (Inl err)
    with Pair GetTodoByID_Inl [of i s err s1] show ?thesis
      by (auto simp: DeleteTodo_def)
  next
    case (Inr old)
    with Pair have g: "GetTodoByID i s = (Inr old, s1)" by simp
    have o: "old \<in> set (rows s1) \<and> ID old = i \<and> live old"
      using GetTodoByID_Inr [OF g] GetTodoByID_rows' [OF g] by simp
    have pos: "\<And>s2. rows s2 = rows s1 \<Longrightarrow> 0 < length (filter (\<lambda>r. ID r = i \<and> live r) (rows s2))"
      using o live_count_pos by metis
    show ?thesis
    proof (cases "faults s1")
      case Nil
      then show ?thesis using pos [of s1]
        by (simp add: DeleteTodo_def g db_Delete_def driver_def)
    next
      case (Cons f fs)
      then show ?thesis using pos [of "s1\<lparr>faults := fs\<rparr>"]
        by (cases f) (simp_all add: DeleteTodo_def g db_Delete_def driver_def)
    qed
  qed
qed

subsection \<open>Listing\<close>
lemma mset_order_desc: "mset (order_desc key xs) = mset xs"
  by (simp add: order_desc_def)

lemma set_order_desc: "set (order_desc key xs) = set xs"
  by (simp add: order_desc_def)

lemma sorted_order_desc: "sorted_wrt (\<lambda>a b. key b \<le> key a) (order_desc key xs)"
proof -
  have "sorted_wrt (\<lambda>a b. key a \<le> key b) (sort_key key xs)"
    using sorted_sort_key [of key xs] by (simp add: sorted_wrt_map)
  then show ?thesis by (simp add: order_desc_def sorted_wrt_rev)
qed

lemma db_Find_quiet:
  "faults s = [] \<Longrightarrow>
   db_Find cond ord s = (Inr (ord (filter (\<lambda>t. live t \<and> cond t) (rows s))), s)"
  by (simp add: db_Find_def driver_quiet)

lemma db_Find_Inr:
  "db_Find cond ord s = (Inr ts, s') \<Longrightarrow> ts = ord (filter (\<lambda>t. live t \<and> cond t) (rows s))"
  by (auto simp: db_Find_def driver_def split: list.splits option.splits)

lemma GetPendingTodos_Inr:
  "GetPendingTodos s = (Inr ps, s') \<Longrightarrow>
   ps = order_desc (\<lambda>t. (Priority t, CreatedAt t))
          (filter (\<lambda>t. live t \<and> Completed t = False) (rows s))"
  unfolding GetPendingTodos_def
  by (cases "db_Find (\<lambda>t. Completed t = False) (order_desc (\<lambda>t. (Priority t, CreatedAt t))) s")
     (auto split: sum.splits dest: db_Find_Inr)

lemma GetCompletedTodos_Inr:
  "GetCompletedTodos s = (Inr cs, s') \<Longrightarrow>
   cs = order_desc UpdatedAt (filter (\<lambda>t. live t \<and> Completed t = True) (rows s))"
  unfolding GetCompletedTodos_def
  by (cases "db_Find (\<lambda>t. Completed t = True) (order_desc UpdatedAt) s")
     (auto split: sum.splits dest: db_Find_Inr)

lemma GetPendingTodos_order:
  assumes "GetPendingTodos s = (Inr ps, s')"
  shows "sorted_wrt (\<lambda>a b. (Priority b, CreatedAt b) \<le> (Priority a, CreatedAt a)) ps"
  unfolding GetPendingTodos_Inr [OF assms]
  by (rule sorted_order_desc [of "\<lambda>t. (Priority t, CreatedAt t)"])

lemma mset_filter_split:
  "mset (filter (\<lambda>t. L t \<and> C t = False) xs) + mset (filter (\<lambda>t. L t \<and> C t = True) xs)
   = mset (filter L xs)"
  by (induction xs) simp_all

section \<open>The claims\<close>
text \<open>
  Claim C1. A priority that is a member of the enumeration is accepted by \<open>CreateTodo\<close>
  and by \<open>UpdateTodo\<close>: neither ever answers it with a validation error, and when the
  store answers without error (and, for the update, the identifier has a live row) the
  returned entity carries that priority. Any other non-empty priority makes
  \<open>CreateTodo\<close> return the validation error naming the value, before any statement is
  issued, so the request and the store are as they were. In \<open>UpdateTodo\<close> the priority
  is checked after the entity has been fetched: no row changes whatever the outcome, and
  the validation error naming the value is returned whenever the fetch finds the live
  entity.
\<close>

theorem priority_validation:
 "(IsValid (req_Priority req) \<longrightarrow>
     (\<forall>e. fst (CreateTodo now req s) \<noteq> Inl (ValidationError e))
   \<and> (faults s = [] \<longrightarrow>
        (\<exists>t s'. CreateTodo now req s = (Inr t, req, s') \<and> Priority t = req_Priority req)))
 \<and> (\<not> IsValid (req_Priority req) \<and> req_Priority req \<noteq> [] \<longrightarrow>
     CreateTodo now req s = (Inl (ValidationError (req_Priority req)), req, s))
 \<and> (\<forall>p. upd_Priority ureq = Some p \<and> IsValid p \<longrightarrow>
     (\<forall>e. fst (UpdateTodo now i ureq s) \<noteq> Inl (ValidationError e))
   \<and> (faults s = [] \<and> is_live s i \<longrightarrow>
        (\<exists>t s'. UpdateTodo now i ureq s = (Inr t, s') \<and> Priority t = p)))
 \<and> (\<forall>p. upd_Priority ureq = Some p \<and> \<not> IsValid p \<longrightarrow>
     rows (snd (UpdateTodo now i ureq s)) = rows s
   \<and> (faults s = [] \<and> is_live s i \<longrightarrow>
        UpdateTodo now i ureq s = (Inl (ValidationError p), s)))"
proof (intro conjI impI allI)
  fix e assume "IsValid (req_Priority req)"
  then show "fst (CreateTodo now req s) \<noteq> Inl (ValidationError e)"
    by (rule CreateTodo_not_validation)
next
  assume "IsValid (req_Priority req)" and "faults s = []"
  then show "\<exists>t s'. CreateTodo now req s = (Inr t, req, s') \<and> Priority t = req_Priority req"
    using CreateTodo_quiet_valid by blast
next
  assume "\<not> IsValid (req_Priority req) \<and> req_Priority req \<noteq> []"
  then show "CreateTodo now req s = (Inl (ValidationError (req_Priority req)), req, s)"
    by (simp add: CreateTodo_def)
next
  fix p e assume "upd_Priority ureq = Some p \<and> IsValid p"
  then show "fst (UpdateTodo now i ureq s) \<noteq> Inl (ValidationError e)"
    using UpdateTodo_not_validation by blast
next
  fix p assume a: "upd_Priority ureq = Some p \<and> IsValid p" and b: "faults s = [] \<and> is_live s i"
  from b obtain old where f: "find (\<lambda>t. ID t = i \<and> live t) (rows s) = Some old"
    using find_live_Some by blast
  have v: "\<forall>q. upd_Priority ureq = Some q \<longrightarrow> IsValid q" using a by simp
  have "Priority (updated now ureq old) = p"
    using a by (simp add: updated_Priority)
  then show "\<exists>t s'. UpdateTodo now i ureq s = (Inr t, s') \<and> Priority t = p"
    using UpdateTodo_quiet_ok [OF _ f v, of now] b by blast
next
  fix p assume "upd_Priority ureq = Some p \<and> \<not> IsValid p"
  then show "rows (snd (UpdateTodo now i ureq s)) = rows s"
    using UpdateTodo_invalid_rows by blast
next
  fix p assume a: "upd_Priority ureq = Some p \<and> \<not> IsValid p" and b: "faults s = [] \<and> is_live s i"
  from b obtain old where f: "find (\<lambda>t. ID t = i \<and> live t) (rows s) = Some old"
    using find_live_Some by blast
  show "UpdateTodo now i ureq s = (Inl (ValidationError p), s)"
    using UpdateTodo_quiet_invalid [OF _ f, of ureq p now] a b by blast
qed

theorem priority_validation_witness:
  "IsValid ''high'' \<and> IsValid ''low'' \<and> \<not> IsValid ''invalid'' \<and> faults example_store = []
   \<and> is_live example_store 1
   \<and> fst (CreateTodo 50 create_high example_store) =
         Inr \<lparr>ID = 5, Title = ''Walk dog'', Description = [], Completed = False,
              Priority = ''high'', DueDate = None, CreatedAt = 50, UpdatedAt = 50,
              DeletedAt = None\<rparr>
   \<and> fst (UpdateTodo 50 1 update_low example_store) =
         Inr \<lparr>ID = 1, Title = ''Buy milk'', Description = [], Completed = True,
              Priority = ''low'', DueDate = None, CreatedAt = 10, UpdatedAt = 50,
              DeletedAt = None\<rparr>
   \<and> CreateTodo 50 create_invalid example_store =
         (Inl (ValidationError ''invalid''), create_invalid, example_store)
   \<and> UpdateTodo 50 1 update_invalid example_store =
         (Inl (ValidationError ''invalid''), example_store)"
proof -
  have e1: "IsValid ''high'' \<and> IsValid ''low'' \<and> \<not> IsValid ''invalid''" by code_simp
  have e2: "faults example_store = [] \<and> is_live example_store 1" by code_simp
  have e3: "fst (CreateTodo 50 create_high example_store) =
         Inr \<lparr>ID = 5, Title = ''Walk dog'', Description = [], Completed = False,
              Priority = ''high'', DueDate = None, CreatedAt = 50, UpdatedAt = 50,
              DeletedAt = None\<rparr>" by code_simp
  have e4: "fst (UpdateTodo 50 1 update_low example_store) =
         Inr \<lparr>ID = 1, Title = ''Buy milk'', Description = [], Completed = True,
              Priority = ''low'', DueDate = None, CreatedAt = 10, UpdatedAt = 50,
              DeletedAt = None\<rparr>" by code_simp
  have e5: "CreateTodo 50 create_invalid example_store =
         (Inl (ValidationError ''invalid''), create_invalid, example_store)" by code_simp
  have e6: "UpdateTodo 50 1 update_invalid example_store =
         (Inl (ValidationError ''invalid''), example_store)" by code_simp
  show ?thesis
    using priority_validation [where req = create_high and s = example_store and now = 50
        and ureq = update_low and i = 1]
      priority_validation [where req = create_invalid and s = example_store and now = 50
        and ureq = update_invalid and i = 1]
      e1 e2 e3 e4 e5 e6
    by simp
qed

text \<open>
  Claim C2. A create request with an empty priority, on a store that answers without
  error, persists and returns an entity of priority \<open>medium\<close>; and every entity that
  \<open>CreateTodo\<close> returns is a row of the resulting table with \<open>Completed = False\<close>.
\<close>

theorem CreateTodo_default_medium:
  "(req_Priority req = [] \<and> faults s = [] \<longrightarrow>
      (\<exists>t r' s'. CreateTodo now req s = (Inr t, r', s') \<and> Priority t = ''medium''
         \<and> Completed t = False \<and> t \<in> set (rows s')))
   \<and> (\<forall>t r' s'. CreateTodo now req s = (Inr t, r', s') \<longrightarrow>
         Completed t = False \<and> t \<in> set (rows s')
         \<and> (req_Priority req = [] \<longrightarrow> Priority t = ''medium''))"
proof (intro conjI impI allI)
  assume a: "req_Priority req = [] \<and> faults s = []"
  then show "\<exists>t r' s'. CreateTodo now req s = (Inr t, r', s') \<and> Priority t = ''medium''
         \<and> Completed t = False \<and> t \<in> set (rows s')"
    by (simp add: CreateTodo_def Let_def db_Create_quiet PriorityMedium_def)
next
  fix t r' s'
  assume c: "CreateTodo now req s = (Inr t, r', s')"
  from CreateTodo_Inr [OF c] show "Completed t = False" by simp
  from CreateTodo_Inr [OF c] show "t \<in> set (rows s')" by simp
  assume "req_Priority req = []"
  with CreateTodo_Inr [OF c] show "Priority t = ''medium''"
    by (simp add: PriorityMedium_def)
qed

theorem CreateTodo_default_medium_witness:
  "req_Priority create_default = [] \<and> faults example_store = []
   \<and> fst (CreateTodo 50 create_default example_store) =
         Inr \<lparr>ID = 5, Title = ''Walk dog'', Description = [], Completed = False,
              Priority = ''medium'', DueDate = None, CreatedAt = 50, UpdatedAt = 50,
              DeletedAt = None\<rparr>
   \<and> rows (snd (snd (CreateTodo 50 create_default example_store))) =
         rows example_store @
         [\<lparr>ID = 5, Title = ''Walk dog'', Description = [], Completed = False,
           Priority = ''medium'', DueDate = None, CreatedAt = 50, UpdatedAt = 50,
           DeletedAt = None\<rparr>]"
proof -
  have e1: "req_Priority create_default = [] \<and> faults example_store = []" by code_simp
  have e2: "fst (CreateTodo 50 create_default example_store) =
         Inr \<lparr>ID = 5, Title = ''Walk dog'', Description = [], Completed = False,
              Priority = ''medium'', DueDate = None, CreatedAt = 50, UpdatedAt = 50,
              DeletedAt = None\<rparr>" by code_simp
  have e3: "rows (snd (snd (CreateTodo 50 create_default example_store))) =
         rows example_store @
         [\<lparr>ID = 5, Title = ''Walk dog'', Description = [], Completed = False,
           Priority = ''medium'', DueDate = None, CreatedAt = 50, UpdatedAt = 50,
           DeletedAt = None\<rparr>]" by code_simp
  show ?thesis
    using CreateTodo_default_medium [where req = create_default and s = example_store
        and now = 50] e1 e2 e3
    by simp
qed

text \<open>
  Claim C3. For a live entity \<open>old\<close> and any update request, \<open>UpdateTodo\<close> applies the
  fields that are present and keeps the others: title, description, completed flag and
  due date are taken from the request when present, the priority only when it is a member
  of the enumeration (otherwise the validation error is returned and nothing is saved),
  and every absent field keeps its previous value. Identifier, creation time and deletion
  marker are kept, \<open>UpdatedAt\<close> is the time of the save, and fetching the identifier
  again returns the same entity.
\<close>

theorem UpdateTodo_partial_update:
  "faults s = [] \<Longrightarrow> GetTodoByID i s = (Inr old, s) \<Longrightarrow>
   ((\<forall>p. upd_Priority req = Some p \<longrightarrow> IsValid p) \<longrightarrow>
      (\<exists>t s'. UpdateTodo now i req s = (Inr t, s')
         \<and> Title t = (case upd_Title req of None \<Rightarrow> Title old | Some v \<Rightarrow> v)
         \<and> Description t = (case upd_Description req of None \<Rightarrow> Description old | Some v \<Rightarrow> v)
         \<and> Completed t = (case upd_Completed req of None \<Rightarrow> Completed old | Some v \<Rightarrow> v)
         \<and> Priority t = (case upd_Priority req of None \<Rightarrow> Priority old | Some v \<Rightarrow> v)
         \<and> DueDate t = (case upd_DueDate req of None \<Rightarrow> DueDate old | Some d \<Rightarrow> Some d)
         \<and> ID t = ID old \<and> CreatedAt t = CreatedAt old \<and> DeletedAt t = DeletedAt old
         \<and> UpdatedAt t = now
         \<and> GetTodoByID i s' = (Inr t, s')))
   \<and> (\<forall>p. upd_Priority req = Some p \<and> \<not> IsValid p \<longrightarrow>
         UpdateTodo now i req s = (Inl (ValidationError p), s))"
proof (intro conjI impI allI)
  assume q: "faults s = []" and g: "GetTodoByID i s = (Inr old, s)"
  have f: "find (\<lambda>t. ID t = i \<and> live t) (rows s) = Some old"
    using GetTodoByID_find [OF q g] .
  {
    assume v: "\<forall>p. upd_Priority req = Some p \<longrightarrow> IsValid p"
    show "\<exists>t s'. UpdateTodo now i req s = (Inr t, s')
         \<and> Title t = (case upd_Title req of None \<Rightarrow> Title old | Some v \<Rightarrow> v)
         \<and> Description t = (case upd_Description req of None \<Rightarrow> Description old | Some v \<Rightarrow> v)
         \<and> Completed t = (case upd_Completed req of None \<Rightarrow> Completed old | Some v \<Rightarrow> v)
         \<and> Priority t = (case upd_Priority req of None \<Rightarrow> Priority old | Some v \<Rightarrow> v)
         \<and> DueDate t = (case upd_DueDate req of None \<Rightarrow> DueDate old | Some d \<Rightarrow> Some d)
         \<and> ID t = ID old \<and> CreatedAt t = CreatedAt old \<and> DeletedAt t = DeletedAt old
         \<and> UpdatedAt t = now
         \<and> GetTodoByID i s' = (Inr t, s')"
      using UpdateTodo_quiet_ok [OF q f v, of now] reread_updated [OF q f, of now req]
        updated_Title [of now req old] updated_Description [of now req old]
        updated_Completed [of now req old] updated_Priority [of now req old]
        updated_DueDate [of now req old] updated_frame [of now req old]
      by blast
  }
  fix p
  assume "upd_Priority req = Some p \<and> \<not> IsValid p"
  then show "UpdateTodo now i req s = (Inl (ValidationError p), s)"
    using UpdateTodo_quiet_invalid [OF q f] by blast
qed

theorem UpdateTodo_partial_update_witness:
  "faults example_store = [] \<and> GetTodoByID 1 example_store = (Inr todo_milk, example_store)
   \<and> fst (UpdateTodo 50 1 update_low example_store) =
         Inr \<lparr>ID = 1, Title = ''Buy milk'', Description = [], Completed = True,
              Priority = ''low'', DueDate = None, CreatedAt = 10, UpdatedAt = 50,
              DeletedAt = None\<rparr>
   \<and> UpdateTodo 50 1 update_invalid example_store =
         (Inl (ValidationError ''invalid''), example_store)"
proof -
  have e1: "faults example_store = []" by code_simp
  have e2: "GetTodoByID 1 example_store = (Inr todo_milk, example_store)" by code_simp
  have e3: "fst (UpdateTodo 50 1 update_low example_store) =
         Inr \<lparr>ID = 1, Title = ''Buy milk'', Description = [], Completed = True,
              Priority = ''low'', DueDate = None, CreatedAt = 10, UpdatedAt = 50,
              DeletedAt = None\<rparr>" by code_simp
  have e4: "UpdateTodo 50 1 update_invalid example_store =
         (Inl (ValidationError ''invalid''), example_store)" by code_simp
  show ?thesis
    using UpdateTodo_partial_update [OF e1 e2, where req = update_low and now = 50]
      UpdateTodo_partial_update [OF e1 e2, where req = update_invalid and now = 50]
      e1 e2 e3 e4
    by simp
qed

text \<open>
  Claim C4 says that the second of two deletions of a live identifier returns the
  already-deleted error. \<open>DeleteTodo\<close> first fetches the entity, and the fetch does not
  see a soft-deleted row: on the sample table the second call returns the not-found
  error.
\<close>

theorem DeleteTodo_twice_counterexample:
  "fst (DeleteTodo 50 1 example_store) = None
   \<and> fst (DeleteTodo 51 1 (snd (DeleteTodo 50 1 example_store))) = Some (NotFoundError 1)
   \<and> fst (DeleteTodo 51 1 (snd (DeleteTodo 50 1 example_store))) \<noteq> Some (AlreadyDeletedError 1)"
  by code_simp

text \<open>
  Claim C4, amended. For an identifier with a live row and a store that answers without
  error, the first \<open>DeleteTodo\<close> succeeds and the second one returns the not-found error
  and changes nothing. Neither call removes a row: after the first call the table has the
  same rows in the same places, those with the identifier carry a deletion marker, and the
  others are untouched. A \<open>DeleteTodo\<close> that runs alone never returns the
  already-deleted error, since the fetch it starts with has just seen a live row.
\<close>

theorem DeleteTodo_twice:
  "faults s = [] \<Longrightarrow> is_live s i \<Longrightarrow>
   (\<exists>s1. DeleteTodo now1 i s = (None, s1)
      \<and> DeleteTodo now2 i s1 = (Some (NotFoundError i), s1)
      \<and> rows s1 = map (\<lambda>r. if ID r = i \<and> DeletedAt r = None then r\<lparr>DeletedAt := Some now1\<rparr> else r)
                     (rows s)
      \<and> map ID (rows s1) = map ID (rows s)
      \<and> (\<forall>r \<in> set (rows s1). ID r = i \<longrightarrow> DeletedAt r \<noteq> None))
   \<and> (\<forall>j. fst (DeleteTodo now1 i s) \<noteq> Some (AlreadyDeletedError j))"
proof (intro conjI allI)
  assume q: "faults s = []" and l: "is_live s i"
  define s1 where "s1 = s\<lparr>rows := map (\<lambda>r. if ID r = i \<and> live r then r\<lparr>DeletedAt := Some now1\<rparr> else r)
                       (rows s)\<rparr>"
  have d1: "DeleteTodo now1 i s = (None, s1)"
    unfolding s1_def by (rule DeleteTodo_quiet_live [OF q l])
  have q1: "faults s1 = []" using q by (simp add: s1_def)
  have n1: "\<not> is_live s1 i" unfolding s1_def by (rule not_live_after_delete)
  have d2: "DeleteTodo now2 i s1 = (Some (NotFoundError i), s1)"
    by (rule DeleteTodo_quiet_missing [OF q1 n1])
  have r0: "rows s1 = map (\<lambda>r. if ID r = i \<and> live r then r\<lparr>DeletedAt := Some now1\<rparr> else r) (rows s)"
    unfolding s1_def by (rule rows_update)
  have r1: "rows s1 = map (\<lambda>r. if ID r = i \<and> DeletedAt r = None then r\<lparr>DeletedAt := Some now1\<rparr> else r)
                     (rows s)"
    using r0 unfolding live_def .
  have m1: "map ID (rows s1) = map ID (rows s)"
    unfolding r0 by (rule ID_after_delete)
  have a1: "\<forall>r \<in> set (rows s1). ID r = i \<longrightarrow> DeletedAt r \<noteq> None"
    using no_live_after_delete [of i now1 "rows s"] unfolding r0 live_def by (fast | meson)
  show "\<exists>s1. DeleteTodo now1 i s = (None, s1)
      \<and> DeleteTodo now2 i s1 = (Some (NotFoundError i), s1)
      \<and> rows s1 = map (\<lambda>r. if ID r = i \<and> DeletedAt r = None then r\<lparr>DeletedAt := Some now1\<rparr> else r)
                     (rows s)
      \<and> map ID (rows s1) = map ID (rows s)
      \<and> (\<forall>r \<in> set (rows s1). ID r = i \<longrightarrow> DeletedAt r \<noteq> None)"
    using d1 d2 r1 m1 a1 by blast
next
  fix j show "fst (DeleteTodo now1 i s) \<noteq> Some (AlreadyDeletedError j)"
    by (rule DeleteTodo_never_AlreadyDeleted)
qed

theorem DeleteTodo_twice_witness:
  "faults example_store = [] \<and> is_live example_store 1
   \<and> fst (DeleteTodo 50 1 example_store) = None
   \<and> DeleteTodo 51 1 (snd (DeleteTodo 50 1 example_store)) =
        (Some (NotFoundError 1), snd (DeleteTodo 50 1 example_store))
   \<and> rows (snd (DeleteTodo 50 1 example_store)) =
        [todo_milk\<lparr>DeletedAt := Some 50\<rparr>, todo_rent, todo_tax, todo_gym]"
proof -
  have e1: "faults example_store = []" by code_simp
  have e2: "is_live example_store 1" by code_simp
  have e3: "fst (DeleteTodo 50 1 example_store) = None" by code_simp
  have e4: "DeleteTodo 51 1 (snd (DeleteTodo 50 1 example_store)) =
        (Some (NotFoundError 1), snd (DeleteTodo 50 1 example_store))" by code_simp
  have e5: "rows (snd (DeleteTodo 50 1 example_store)) =
        [todo_milk\<lparr>DeletedAt := Some 50\<rparr>, todo_rent, todo_tax, todo_gym]" by code_simp
  show ?thesis
    using DeleteTodo_twice [OF e1 e2, where ?now1.0 = 50 and ?now2.0 = 51] e1 e2 e3 e4 e5
    by simp
qed

text \<open>
  Claim C5 says that \<open>GetPendingTodos\<close> lists by severity, urgent before high before
  medium before low. The query orders by the text of the priority column, in which
  \<open>medium\<close> is above \<open>high\<close>: on the sample table the pending entity of medium priority
  comes before the one of high priority.
\<close>

theorem GetPendingTodos_text_order:
  "fst (GetPendingTodos example_store) = Inr [todo_rent, todo_milk]
   \<and> Priority todo_rent = PriorityMedium \<and> Priority todo_milk = PriorityHigh
   \<and> spec_rank PriorityMedium < spec_rank PriorityHigh"
  by code_simp

text \<open>
  Claim C6. Whatever \<open>GetTodoByID\<close> returns is a row with that identifier and no deletion
  marker. On a store that answers without error it returns such a row when there is one,
  and the not-found error when there is none; in that case \<open>UpdateTodo\<close> and
  \<open>DeleteTodo\<close> return the same error from their initial fetch and change nothing.
\<close>

theorem GetTodoByID_live_or_NotFound:
  "(\<forall>t s'. GetTodoByID i s = (Inr t, s') \<longrightarrow>
      t \<in> set (rows s) \<and> ID t = i \<and> DeletedAt t = None)
   \<and> (faults s = [] \<longrightarrow>
        (if is_live s i
         then (\<exists>t. GetTodoByID i s = (Inr t, s) \<and> t \<in> set (rows s) \<and> ID t = i
                 \<and> DeletedAt t = None)
         else GetTodoByID i s = (Inl (NotFoundError i), s)
            \<and> UpdateTodo now i req s = (Inl (NotFoundError i), s)
            \<and> DeleteTodo now i s = (Some (NotFoundError i), s)))"
proof (intro conjI allI impI)
  fix t s'
  assume g: "GetTodoByID i s = (Inr t, s')"
  from GetTodoByID_Inr [OF g] show "t \<in> set (rows s)" by simp
  from GetTodoByID_Inr [OF g] show "ID t = i" by simp
  from GetTodoByID_Inr [OF g] show "DeletedAt t = None" by (simp add: live_def)
next
  assume q: "faults s = []"
  show "if is_live s i
        then (\<exists>t. GetTodoByID i s = (Inr t, s) \<and> t \<in> set (rows s) \<and> ID t = i
                \<and> DeletedAt t = None)
        else GetTodoByID i s = (Inl (NotFoundError i), s)
           \<and> UpdateTodo now i req s = (Inl (NotFoundError i), s)
           \<and> DeleteTodo now i s = (Some (NotFoundError i), s)"
  proof (cases "is_live s i")
    case True
    then obtain t where f: "find (\<lambda>t. ID t = i \<and> live t) (rows s) = Some t"
      using find_live_Some by blast
    then have "GetTodoByID i s = (Inr t, s)"
      using q by (simp add: GetTodoByID_quiet)
    moreover have "t \<in> set (rows s) \<and> ID t = i \<and> DeletedAt t = None"
      using find_live_props [OF f] by (simp add: live_def)
    ultimately show ?thesis using True by auto
  next
    case False
    have g: "GetTodoByID i s = (Inl (NotFoundError i), s)"
      using q False by (simp add: GetTodoByID_quiet find_live_None)
    then show ?thesis using False
      by (simp add: UpdateTodo_def DeleteTodo_def)
  qed
qed

theorem GetTodoByID_live_or_NotFound_witness:
  "faults example_store = [] \<and> is_live example_store 1 \<and> \<not> is_live example_store 4
   \<and> \<not> is_live example_store 7
   \<and> GetTodoByID 1 example_store = (Inr todo_milk, example_store)
   \<and> GetTodoByID 4 example_store = (Inl (NotFoundError 4), example_store)
   \<and> UpdateTodo 50 4 update_low example_store = (Inl (NotFoundError 4), example_store)
   \<and> DeleteTodo 50 4 example_store = (Some (NotFoundError 4), example_store)
   \<and> GetTodoByID 7 example_store = (Inl (NotFoundError 7), example_store)"
proof -
  have e1: "faults example_store = []" by code_simp
  have e2: "is_live example_store 1 \<and> \<not> is_live example_store 4 \<and> \<not> is_live example_store 7"
    by code_simp
  have e3: "GetTodoByID 1 example_store = (Inr todo_milk, example_store)" by code_simp
  show ?thesis
    using GetTodoByID_live_or_NotFound [where s = example_store and i = 1]
      GetTodoByID_live_or_NotFound [where s = example_store and i = 4 and now = 50
        and req = update_low]
      GetTodoByID_live_or_NotFound [where s = example_store and i = 7 and now = 50
        and req = update_low] e1 e2 e3
    by simp
qed

text \<open>
  Claim C7. On a store that answers without error, \<open>GetTodosByPriority\<close> with a member
  of the enumeration returns exactly the live rows of that priority (each as often as it
  is in the table), by descending creation time; and \<open>GetAllTodos\<close> returns exactly the
  live rows, by descending creation time.
\<close>

theorem listings_filter_and_order:
  "faults s = [] \<Longrightarrow>
   (IsValid p \<longrightarrow>
      (\<exists>ts. GetTodosByPriority p s = (Inr ts, s)
         \<and> mset ts = mset (filter (\<lambda>t. DeletedAt t = None \<and> Priority t = p) (rows s))
         \<and> sorted_wrt (\<lambda>a b. CreatedAt b \<le> CreatedAt a) ts))
   \<and> (\<exists>us. GetAllTodos s = (Inr us, s)
         \<and> mset us = mset (filter (\<lambda>t. DeletedAt t = None) (rows s))
         \<and> sorted_wrt (\<lambda>a b. CreatedAt b \<le> CreatedAt a) us)"
  by (simp add: GetTodosByPriority_def GetAllTodos_def db_Find_quiet mset_order_desc
        sorted_order_desc live_def)

theorem listings_filter_and_order_witness:
  "faults example_store = [] \<and> IsValid ''high''
   \<and> GetTodosByPriority ''high'' example_store = (Inr [todo_milk], example_store)
   \<and> GetAllTodos example_store = (Inr [todo_tax, todo_rent, todo_milk], example_store)"
proof -
  have e1: "faults example_store = []" by code_simp
  have e2: "IsValid ''high''" by code_simp
  have e3: "GetTodosByPriority ''high'' example_store = (Inr [todo_milk], example_store)"
    by code_simp
  have e4: "GetAllTodos example_store = (Inr [todo_tax, todo_rent, todo_milk], example_store)"
    by code_simp
  show ?thesis
    using listings_filter_and_order [OF e1, of "''high''"] e1 e2 e3 e4 by simp
qed

text \<open>
  Claim C8. Every entity that \<open>GetPendingTodos\<close> returns has \<open>Completed = False\<close> and
  every entity that \<open>GetCompletedTodos\<close> returns has \<open>Completed = True\<close>. On a store
  that answers without error the two results together are exactly the live rows, and no
  entity is in both.
\<close>

theorem pending_completed_partition:
  "(\<forall>ps s'. GetPendingTodos s = (Inr ps, s') \<longrightarrow> (\<forall>t \<in> set ps. Completed t = False))
   \<and> (\<forall>cs s'. GetCompletedTodos s = (Inr cs, s') \<longrightarrow> (\<forall>t \<in> set cs. Completed t = True))
   \<and> (faults s = [] \<longrightarrow>
        (\<exists>ps cs. GetPendingTodos s = (Inr ps, s) \<and> GetCompletedTodos s = (Inr cs, s)
           \<and> mset ps + mset cs = mset (filter (\<lambda>t. DeletedAt t = None) (rows s))
           \<and> set ps \<inter> set cs = {}))"
proof (intro conjI allI impI)
  fix ps s'
  assume "GetPendingTodos s = (Inr ps, s')"
  from GetPendingTodos_Inr [OF this] show "\<forall>t \<in> set ps. Completed t = False"
    by (simp add: set_order_desc)
next
  fix cs s'
  assume "GetCompletedTodos s = (Inr cs, s')"
  from GetCompletedTodos_Inr [OF this] show "\<forall>t \<in> set cs. Completed t = True"
    by (simp add: set_order_desc)
next
  assume q: "faults s = []"
  define ps where "ps = order_desc (\<lambda>t. (Priority t, CreatedAt t))
               (filter (\<lambda>t. live t \<and> Completed t = False) (rows s))"
  define cs where "cs = order_desc UpdatedAt (filter (\<lambda>t. live t \<and> Completed t = True) (rows s))"
  have p: "GetPendingTodos s = (Inr ps, s)"
    by (simp add: GetPendingTodos_def db_Find_quiet [OF q] ps_def)
  have c: "GetCompletedTodos s = (Inr cs, s)"
    by (simp add: GetCompletedTodos_def db_Find_quiet [OF q] cs_def)
  have "mset ps + mset cs = mset (filter live (rows s))"
    unfolding ps_def cs_def mset_order_desc by (rule mset_filter_split)
  also have "filter live (rows s) = filter (\<lambda>t. DeletedAt t = None) (rows s)"
    by (rule filter_cong) (simp_all add: live_def)
  finally have m: "mset ps + mset cs = mset (filter (\<lambda>t. DeletedAt t = None) (rows s))" .
  have sp: "\<forall>t \<in> set ps. Completed t = False"
    unfolding ps_def set_order_desc by simp
  have sc: "\<forall>t \<in> set cs. Completed t = True"
    unfolding cs_def set_order_desc by simp
  have d: "set ps \<inter> set cs = {}"
    using sp sc by blast
  show "\<exists>ps cs. GetPendingTodos s = (Inr ps, s) \<and> GetCompletedTodos s = (Inr cs, s)
           \<and> mset ps + mset cs = mset (filter (\<lambda>t. DeletedAt t = None) (rows s))
           \<and> set ps \<inter> set cs = {}"
    using p c m d by blast
qed

theorem pending_completed_partition_witness:
  "faults example_store = []
   \<and> GetPendingTodos example_store = (Inr [todo_rent, todo_milk], example_store)
   \<and> GetCompletedTodos example_store = (Inr [todo_tax], example_store)
   \<and> filter (\<lambda>t. DeletedAt t = None) (rows example_store) = [todo_milk, todo_rent, todo_tax]"
proof -
  have e1: "faults example_store = []" by code_simp
  have e2: "GetPendingTodos example_store = (Inr [todo_rent, todo_milk], example_store)"
    by code_simp
  have e3: "GetCompletedTodos example_store = (Inr [todo_tax], example_store)" by code_simp
  have e4: "filter (\<lambda>t. DeletedAt t = None) (rows example_store) = [todo_milk, todo_rent, todo_tax]"
    by code_simp
  show ?thesis
    using pending_completed_partition [of example_store] e1 e2 e3 e4 by simp
qed

text \<open>
  Claim C9 says that applying the empty update twice yields the same entity state as
  applying it once. Every save refreshes \<open>UpdatedAt\<close>, and the second update is saved at
  a later instant than the first: on the sample table the entity after two updates
  differs from the entity after one.
\<close>

theorem empty_update_twice_counterexample:
  "fst (UpdateTodo 50 1 empty_update example_store) = Inr (todo_milk\<lparr>UpdatedAt := 50\<rparr>)
   \<and> fst (UpdateTodo 51 1 empty_update (snd (UpdateTodo 50 1 empty_update example_store))) =
        Inr (todo_milk\<lparr>UpdatedAt := 51\<rparr>)
   \<and> fst (UpdateTodo 51 1 empty_update (snd (UpdateTodo 50 1 empty_update example_store))) \<noteq>
        fst (UpdateTodo 50 1 empty_update example_store)"
  by code_simp

text \<open>
  Claim C9, amended. For a live entity \<open>old\<close> on a store that answers without error, the
  empty update returns \<open>old\<close> with \<open>UpdatedAt\<close> set to the time of the call, and so
  does a second empty update: the two results agree in every field except \<open>UpdatedAt\<close>,
  and the second one is what a later fetch returns. An update without a priority field
  leaves the priority as it was.
\<close>

theorem empty_update_twice:
  "faults s = [] \<Longrightarrow> GetTodoByID i s = (Inr old, s) \<Longrightarrow>
   (\<exists>s1 s2. UpdateTodo now1 i empty_update s = (Inr (old\<lparr>UpdatedAt := now1\<rparr>), s1)
      \<and> UpdateTodo now2 i empty_update s1 = (Inr (old\<lparr>UpdatedAt := now2\<rparr>), s2)
      \<and> GetTodoByID i s2 = (Inr (old\<lparr>UpdatedAt := now2\<rparr>), s2))
   \<and> (\<forall>req. upd_Priority req = None \<longrightarrow>
         (\<exists>t s'. UpdateTodo now1 i req s = (Inr t, s') \<and> Priority t = Priority old))"
proof (intro conjI allI impI)
  assume q: "faults s = []" and g: "GetTodoByID i s = (Inr old, s)"
  have f: "find (\<lambda>t. ID t = i \<and> live t) (rows s) = Some old"
    using GetTodoByID_find [OF q g] .
  have v: "\<forall>p. upd_Priority empty_update = Some p \<longrightarrow> IsValid p"
    by (simp add: empty_update_def)
  define t1 where "t1 = old\<lparr>UpdatedAt := now1\<rparr>"
  define s1 where "s1 = s\<lparr>rows := map (\<lambda>r. if ID r = i \<and> live r then t1 else r) (rows s)\<rparr>"
  have e1: "updated now1 empty_update old = t1"
    by (simp add: updated_empty t1_def)
  have u1: "UpdateTodo now1 i empty_update s = (Inr t1, s1)"
    using UpdateTodo_quiet_ok [OF q f v, of now1] unfolding e1 s1_def .
  have q1: "faults s1 = []" using q by (simp add: s1_def)
  have g1: "GetTodoByID i s1 = (Inr t1, s1)"
    using reread_updated [OF q f, of now1 empty_update] unfolding e1 s1_def .
  have f1: "find (\<lambda>t. ID t = i \<and> live t) (rows s1) = Some t1"
    using GetTodoByID_find [OF q1 g1] .
  define t2 where "t2 = old\<lparr>UpdatedAt := now2\<rparr>"
  define s2 where "s2 = s1\<lparr>rows := map (\<lambda>r. if ID r = i \<and> live r then t2 else r) (rows s1)\<rparr>"
  have e2: "updated now2 empty_update t1 = t2"
    by (simp add: updated_empty t1_def t2_def)
  have u2: "UpdateTodo now2 i empty_update s1 = (Inr t2, s2)"
    using UpdateTodo_quiet_ok [OF q1 f1 v, of now2] unfolding e2 s2_def .
  have g2: "GetTodoByID i s2 = (Inr t2, s2)"
    using reread_updated [OF q1 f1, of now2 empty_update] unfolding e2 s2_def .
  show "\<exists>s1 s2. UpdateTodo now1 i empty_update s = (Inr (old\<lparr>UpdatedAt := now1\<rparr>), s1)
      \<and> UpdateTodo now2 i empty_update s1 = (Inr (old\<lparr>UpdatedAt := now2\<rparr>), s2)
      \<and> GetTodoByID i s2 = (Inr (old\<lparr>UpdatedAt := now2\<rparr>), s2)"
    using u1 u2 g2 unfolding t1_def t2_def by blast
  {
    fix req :: TodoUpdateRequest
    assume n: "upd_Priority req = None"
    then have v': "\<forall>p. upd_Priority req = Some p \<longrightarrow> IsValid p" by simp
    have "Priority (updated now1 req old) = Priority old"
      using n by (simp add: updated_Priority)
    then show "\<exists>t s'. UpdateTodo now1 i req s = (Inr t, s') \<and> Priority t = Priority old"
      using UpdateTodo_quiet_ok [OF q f v', of now1] by blast
  }
qed

theorem empty_update_twice_witness:
  "faults example_store = [] \<and> GetTodoByID 1 example_store = (Inr todo_milk, example_store)
   \<and> fst (UpdateTodo 50 1 empty_update example_store) = Inr (todo_milk\<lparr>UpdatedAt := 50\<rparr>)
   \<and> fst (UpdateTodo 51 1 empty_update (snd (UpdateTodo 50 1 empty_update example_store))) =
        Inr (todo_milk\<lparr>UpdatedAt := 51\<rparr>)"
proof -
  have e1: "faults example_store = []" by code_simp
  have e2: "GetTodoByID 1 example_store = (Inr todo_milk, example_store)" by code_simp
  have e3: "fst (UpdateTodo 50 1 empty_update example_store) = Inr (todo_milk\<lparr>UpdatedAt := 50\<rparr>)"
    by code_simp
  have e4: "fst (UpdateTodo 51 1 empty_update (snd (UpdateTodo 50 1 empty_update example_store))) =
        Inr (todo_milk\<lparr>UpdatedAt := 51\<rparr>)" by code_simp
  show ?thesis
    using empty_update_twice [OF e1 e2, where ?now1.0 = 50 and ?now2.0 = 51] e1 e2 e3 e4
    by simp
qed

text \<open>
  Claim C10. \<open>CreateTodo\<close> writes into the request it is given: when the priority of the
  request is empty, the request the caller holds afterwards has priority \<open>medium\<close> and
  is otherwise unchanged; when it is not empty, the request is unchanged.
\<close>

theorem CreateTodo_mutates_request:
  "CreateTodo now req s = (r, req', s') \<Longrightarrow>
   (if req_Priority req = [] then req' = req\<lparr>req_Priority := ''medium''\<rparr> else req' = req)"
  by (auto simp: CreateTodo_def Let_def PriorityMedium_def split: if_splits prod.splits sum.splits)

theorem CreateTodo_mutates_request_witness:
  "req_Priority create_default = []
   \<and> fst (snd (CreateTodo 50 create_default example_store)) =
        create_default\<lparr>req_Priority := ''medium''\<rparr>
   \<and> req_Priority create_high \<noteq> []
   \<and> fst (snd (CreateTodo 50 create_high example_store)) = create_high"
proof -
  have e1: "req_Priority create_default = [] \<and> req_Priority create_high \<noteq> []" by code_simp
  have p1: "CreateTodo 50 create_default example_store =
     (fst (CreateTodo 50 create_default example_store),
      fst (snd (CreateTodo 50 create_default example_store)),
      snd (snd (CreateTodo 50 create_default example_store)))" by simp
  have p2: "CreateTodo 50 create_high example_store =
     (fst (CreateTodo 50 create_high example_store),
      fst (snd (CreateTodo 50 create_high example_store)),
      snd (snd (CreateTodo 50 create_high example_store)))" by simp
  show ?thesis
    using CreateTodo_mutates_request [OF p1] CreateTodo_mutates_request [OF p2] e1
    by simp
qed

end
